theory Spec2Isabelle
  imports Main "HOL-Library.Word"
begin

section \<open>Traffic-light controller (src/main.cpp)\<close>

text \<open>
  The controller of \<^verbatim>\<open>main.cpp\<close> runs on an AVR board: \<^verbatim>\<open>unsigned long\<close> is a
  32-bit word whose subtraction wraps, \<^verbatim>\<open>int\<close> is a 16-bit word, and the value handed to
  \<^verbatim>\<open>digitalWrite\<close> is a byte. The global variables of the sketch and the levels of the
  output pins form the state; every routine takes the state and returns the new one. The
  clock readings \<^verbatim>\<open>micros()\<close> and \<^verbatim>\<open>millis()\<close> and the level returned by \<^verbatim>\<open>digitalRead\<close>
  come from the hardware, so they are arguments of the routine that reads them.
\<close>

subsection \<open>Constants\<close>

type_synonym ulong = "32 word"
type_synonym c_int = "16 word"
type_synonym pin_level = "8 word"

definition HIGH :: "'a::len word" where
  "HIGH = 1"

definition LOW :: "'a::len word" where
  "LOW = 0"

definition LED_RED :: nat where
  "LED_RED = 5"

definition LED_YELLOW :: nat where
  "LED_YELLOW = 6"

definition LED_GREEN :: nat where
  "LED_GREEN = 7"

definition LED_BLINK :: nat where
  "LED_BLINK = 8"

definition debounceDelayMicro :: ulong where
  "debounceDelayMicro = 200000"

definition blinkingDebounceDelay :: ulong where
  "blinkingDebounceDelay = 50"

definition cycleDuration :: ulong where
  "cycleDuration = 6000"

subsection \<open>State\<close>

record controller =
  emergencyMode :: bool
  systemOffMode :: bool
  blinkingMode :: bool
  lastEmergencyInterruptTime :: ulong
  lastResetInterruptTime :: ulong
  lastBlinkingDebounceTime :: ulong
  lastBlinkingButtonState :: c_int
  cycleStart :: ulong
  pins :: "nat \<Rightarrow> pin_level"

text \<open>The initialisers of the globals; after reset every port register is zero.\<close>

definition startup :: controller where
  "startup = \<lparr> emergencyMode = False, systemOffMode = False, blinkingMode = False,
     lastEmergencyInterruptTime = 0, lastResetInterruptTime = 0,
     lastBlinkingDebounceTime = 0, lastBlinkingButtonState = HIGH,
     cycleStart = 0, pins = (\<lambda>p. LOW) \<rparr>"

definition digitalWrite :: "nat \<Rightarrow> pin_level \<Rightarrow> controller \<Rightarrow> controller" where
  "digitalWrite pin val s = s\<lparr>pins := (pins s)(pin := val)\<rparr>"

subsection \<open>Interrupt service routines\<close>

text \<open>\<^verbatim>\<open>emergencyISR\<close>; the argument is the reading of \<^verbatim>\<open>micros()\<close>.\<close>

definition emergencyISR :: "ulong \<Rightarrow> controller \<Rightarrow> controller" where
  "emergencyISR current s =
     (if current - lastEmergencyInterruptTime s \<ge> debounceDelayMicro
      then s\<lparr>emergencyMode := \<not> emergencyMode s, lastEmergencyInterruptTime := current\<rparr>
      else s)"

text \<open>\<^verbatim>\<open>resetISR\<close>; the argument is the reading of \<^verbatim>\<open>micros()\<close>.\<close>

definition resetISR :: "ulong \<Rightarrow> controller \<Rightarrow> controller" where
  "resetISR current s =
     (if current - lastResetInterruptTime s \<ge> debounceDelayMicro
      then s\<lparr>systemOffMode := \<not> systemOffMode s, lastResetInterruptTime := current\<rparr>
      else s)"

subsection \<open>Polled button\<close>

text \<open>
  \<^verbatim>\<open>pollBlinkingButton\<close>; the arguments are the level read from the button pin and the
  reading of \<^verbatim>\<open>millis()\<close>.
\<close>

definition pollBlinkingButton :: "c_int \<Rightarrow> ulong \<Rightarrow> controller \<Rightarrow> controller" where
  "pollBlinkingButton currentState currentTime s =
     (let s1 =
        (if lastBlinkingButtonState s = HIGH \<and> currentState = LOW \<and>
            currentTime - lastBlinkingDebounceTime s > blinkingDebounceDelay
         then s\<lparr>blinkingMode := \<not> blinkingMode s, lastBlinkingDebounceTime := currentTime\<rparr>
         else s)
      in s1\<lparr>lastBlinkingButtonState := currentState\<rparr>)"

subsection \<open>Setup\<close>

text \<open>
  The routine \<^verbatim>\<open>setup()\<close> (the name is reserved in Isabelle, hence \<open>setup_board\<close>): the
  four outputs are driven low and the cycle reference is taken from
  \<^verbatim>\<open>millis()\<close>. Pin modes and the attachment of the interrupts do not change the state
  modelled here.
\<close>

definition setup_board :: "ulong \<Rightarrow> controller \<Rightarrow> controller" where
  "setup_board ms s =
     (let s1 = digitalWrite LED_RED LOW s;
          s2 = digitalWrite LED_YELLOW LOW s1;
          s3 = digitalWrite LED_GREEN LOW s2;
          s4 = digitalWrite LED_BLINK LOW s3
      in s4\<lparr>cycleStart := ms\<rparr>)"

subsection \<open>Resolver\<close>

text \<open>The phase of the normal cycle, line 140 of the source.\<close>

definition elapsed_of :: "ulong \<Rightarrow> ulong \<Rightarrow> ulong" where
  "elapsed_of now start = (now - start) mod cycleDuration"

text \<open>
  \<^verbatim>\<open>updateTrafficLights\<close>; the argument is the reading of \<^verbatim>\<open>millis()\<close>, which the routine
  takes at most once on every path.
\<close>

definition updateTrafficLights :: "ulong \<Rightarrow> controller \<Rightarrow> controller" where
  "updateTrafficLights ms s =
     (if systemOffMode s then
        (let s1 = digitalWrite LED_RED LOW s;
             s2 = digitalWrite LED_YELLOW LOW s1;
             s3 = digitalWrite LED_GREEN LOW s2
         in digitalWrite LED_BLINK LOW s3)
      else if emergencyMode s then
        (let s1 = digitalWrite LED_RED HIGH s;
             s2 = digitalWrite LED_YELLOW LOW s1;
             s3 = digitalWrite LED_GREEN LOW s2
         in digitalWrite LED_BLINK LOW s3)
      else if blinkingMode s then
        (let blinkState = ((ms div 500) mod 2 = 0);
             s1 = digitalWrite LED_RED (if blinkState then HIGH else LOW) s;
             s2 = digitalWrite LED_YELLOW (if blinkState then HIGH else LOW) s1;
             s3 = digitalWrite LED_GREEN (if blinkState then HIGH else LOW) s2
         in digitalWrite LED_BLINK (if blinkState then HIGH else LOW) s3)
      else
        (let now = ms;
             elapsed = elapsed_of now (cycleStart s);
             s1 = digitalWrite LED_RED LOW s;
             s2 = digitalWrite LED_YELLOW LOW s1;
             s3 = digitalWrite LED_GREEN LOW s2;
             s4 = digitalWrite LED_BLINK LOW s3
         in if elapsed < 2000 then digitalWrite LED_RED HIGH s4
            else if elapsed < 2500 then digitalWrite LED_YELLOW HIGH s4
            else if elapsed < 4500 then digitalWrite LED_GREEN HIGH s4
            else if elapsed < 5500 then
              (let tick = (ucast ((elapsed - 4500) div 100) :: c_int)
               in if tick = 0 \<or> tick = 3 \<or> tick = 6
                  then digitalWrite LED_BLINK HIGH s4 else s4)
            else digitalWrite LED_YELLOW HIGH s4))"

text \<open>The Output Vector: the levels of the red, yellow, green and blink pins.\<close>

definition outputs :: "controller \<Rightarrow> pin_level \<times> pin_level \<times> pin_level \<times> pin_level" where
  "outputs s = (pins s LED_RED, pins s LED_YELLOW, pins s LED_GREEN, pins s LED_BLINK)"

text \<open>
  The table of the normal cycle as the specification words it: five windows, each with an
  inclusive lower and an exclusive upper bound, and inside the fourth window three
  sub-ranges of 100 ms in which the blink output is on.
\<close>

definition in_window :: "nat \<Rightarrow> nat \<Rightarrow> nat \<Rightarrow> bool" where
  "in_window lo hi e = (lo \<le> e \<and> e < hi)"

definition spec_cycle_table :: "nat \<Rightarrow> pin_level \<times> pin_level \<times> pin_level \<times> pin_level" where
  "spec_cycle_table e =
     (if in_window 0 2000 e then (HIGH, LOW, LOW, LOW)
      else if in_window 2000 2500 e then (LOW, HIGH, LOW, LOW)
      else if in_window 2500 4500 e then (LOW, LOW, HIGH, LOW)
      else if in_window 4500 5500 e then
        (LOW, LOW, LOW,
         if in_window 4500 4600 e \<or> in_window 4800 4900 e \<or> in_window 5100 5200 e
         then HIGH else LOW)
      else if in_window 5500 6000 e then (LOW, HIGH, LOW, LOW)
      else (LOW, LOW, LOW, LOW))"

subsection \<open>Event sequences\<close>

text \<open>
  A trigger that fires several times runs its routine once per event, each run starting
  from the state the previous one left. The functions below count the runs in which the
  owned flag changed.
\<close>

fun emergency_toggles :: "ulong list \<Rightarrow> controller \<Rightarrow> nat" where
  "emergency_toggles [] s = 0"
| "emergency_toggles (t # ts) s =
     (if emergencyMode (emergencyISR t s) \<noteq> emergencyMode s then 1 else 0) +
     emergency_toggles ts (emergencyISR t s)"

fun reset_toggles :: "ulong list \<Rightarrow> controller \<Rightarrow> nat" where
  "reset_toggles [] s = 0"
| "reset_toggles (t # ts) s =
     (if systemOffMode (resetISR t s) \<noteq> systemOffMode s then 1 else 0) +
     reset_toggles ts (resetISR t s)"

fun poll_toggles :: "(c_int \<times> ulong) list \<Rightarrow> controller \<Rightarrow> nat" where
  "poll_toggles [] s = 0"
| "poll_toggles ((l, t) # ps) s =
     (if blinkingMode (pollBlinkingButton l t s) \<noteq> blinkingMode s then 1 else 0) +
     poll_toggles ps (pollBlinkingButton l t s)"

text \<open>States used to run the routines on concrete inputs.\<close>

definition all_modes_on :: controller where
  "all_modes_on = startup\<lparr>systemOffMode := True, emergencyMode := True, blinkingMode := True\<rparr>"

definition running_since :: "ulong \<Rightarrow> controller" where
  "running_since ms = setup_board ms startup"

section \<open>Properties of the resolver\<close>

lemmas pin_defs = LED_RED_def LED_YELLOW_def LED_GREEN_def LED_BLINK_def

lemmas write_defs = updateTrafficLights_def digitalWrite_def Let_def outputs_def

lemma elapsed_of_less: "unat (elapsed_of now start) < 6000"
proof -
  have "elapsed_of now start < cycleDuration"
    unfolding elapsed_of_def by (rule word_mod_less_divisor) (simp add: cycleDuration_def)
  then show ?thesis by (simp add: word_less_nat_alt cycleDuration_def)
qed

lemma blinkState_parity: "((ms :: ulong) div 500) mod 2 = 0 \<longleftrightarrow> even (unat ms div 500)"
proof -
  have "((ms div 500) mod 2 = 0) = (unat ((ms div 500) mod 2) = 0)"
    by (simp add: unat_eq_0)
  also have "\<dots> = (unat ms div 500 mod 2 = 0)"
    by (simp add: unat_mod unat_div)
  finally show ?thesis by presburger
qed

text \<open>The conversion of the sub-tick index to \<^verbatim>\<open>int\<close> loses nothing inside the window.\<close>

lemma tick_nat:
  fixes e :: ulong
  assumes "4500 \<le> unat e" "unat e < 5500"
  shows "unat (ucast ((e - 4500) div 100) :: c_int) = (unat e - 4500) div 100"
proof -
  have le: "(4500 :: ulong) \<le> e" using assms(1) by (simp add: word_le_nat_alt)
  have "unat (e - 4500) = unat e - 4500" using le by (simp add: unat_sub)
  then have d: "unat ((e - 4500) div 100) = (unat e - 4500) div 100"
    by (simp add: unat_div)
  have "unat (ucast ((e - 4500) div 100) :: c_int) = unat ((e - 4500) div 100) mod 2 ^ 16"
    by (simp add: unsigned_ucast_eq take_bit_eq_mod)
  also have "\<dots> = (unat e - 4500) div 100" using d assms by simp
  finally show ?thesis .
qed

lemma tick_cases:
  fixes e :: ulong
  assumes "4500 \<le> unat e" "unat e < 5500"
  shows "((ucast ((e - 4500) div 100) :: c_int) = 0) = (unat e < 4600)"
    and "((ucast ((e - 4500) div 100) :: c_int) = 3) = (4800 \<le> unat e \<and> unat e < 4900)"
    and "((ucast ((e - 4500) div 100) :: c_int) = 6) = (5100 \<le> unat e \<and> unat e < 5200)"
proof -
  let ?t = "ucast ((e - 4500) div 100) :: c_int"
  have t: "unat ?t = (unat e - 4500) div 100" using assms by (rule tick_nat)
  have "(?t = 0) = (unat ?t = 0)" by (simp add: unat_eq_0)
  then show "(?t = 0) = (unat e < 4600)" using t assms by auto
  have "(?t = 3) = (unat ?t = unat (3 :: c_int))" by (simp only: word_unat_eq_iff)
  then show "(?t = 3) = (4800 \<le> unat e \<and> unat e < 4900)" using t assms by auto
  have "(?t = 6) = (unat ?t = unat (6 :: c_int))" by (simp only: word_unat_eq_iff)
  then show "(?t = 6) = (5100 \<le> unat e \<and> unat e < 5200)" using t assms by auto
qed

text \<open>What each branch of the resolver leaves on the four pins.\<close>

lemma shutdown_outputs:
  assumes "systemOffMode s"
  shows "outputs (updateTrafficLights ms s) = (LOW, LOW, LOW, LOW)"
  using assms by (simp add: write_defs pin_defs)

lemma emergency_outputs:
  assumes "\<not> systemOffMode s" "emergencyMode s"
  shows "outputs (updateTrafficLights ms s) = (HIGH, LOW, LOW, LOW)"
  using assms by (simp add: write_defs pin_defs)

lemma blink_outputs:
  assumes "\<not> systemOffMode s" "\<not> emergencyMode s" "blinkingMode s"
  shows "outputs (updateTrafficLights ms s) =
     (if even (unat ms div 500) then (HIGH, HIGH, HIGH, HIGH) else (LOW, LOW, LOW, LOW))"
  using assms by (simp add: write_defs pin_defs blinkState_parity)

lemma normal_outputs:
  assumes "\<not> systemOffMode s" "\<not> emergencyMode s" "\<not> blinkingMode s"
  shows "outputs (updateTrafficLights ms s) =
     (let e = unat (elapsed_of ms (cycleStart s)) in
      if e < 2000 then (HIGH, LOW, LOW, LOW)
      else if e < 2500 then (LOW, HIGH, LOW, LOW)
      else if e < 4500 then (LOW, LOW, HIGH, LOW)
      else if e < 5500 then
        (LOW, LOW, LOW,
         if e < 4600 \<or> (4800 \<le> e \<and> e < 4900) \<or> (5100 \<le> e \<and> e < 5200)
         then HIGH else LOW)
      else (LOW, HIGH, LOW, LOW))"
proof -
  define w where "w = elapsed_of ms (cycleStart s)"
  consider (red) "unat w < 2000" | (yellow) "2000 \<le> unat w" "unat w < 2500"
    | (green) "2500 \<le> unat w" "unat w < 4500" | (flash) "4500 \<le> unat w" "unat w < 5500"
    | (last) "5500 \<le> unat w" by linarith
  then show ?thesis
  proof cases
    case red
    then have "w < 2000" by (simp add: word_less_nat_alt)
    with red assms show ?thesis
      by (simp add: write_defs pin_defs w_def [symmetric])
  next
    case yellow
    then have "\<not> w < 2000" "w < 2500" by (simp_all add: word_less_nat_alt)
    with yellow assms show ?thesis
      by (simp add: write_defs pin_defs w_def [symmetric])
  next
    case green
    then have "\<not> w < 2000" "\<not> w < 2500" "w < 4500" by (simp_all add: word_less_nat_alt)
    with green assms show ?thesis
      by (simp add: write_defs pin_defs w_def [symmetric])
  next
    case flash
    then have "\<not> w < 2000" "\<not> w < 2500" "\<not> w < 4500" "w < 5500"
      by (simp_all add: word_less_nat_alt)
    with flash assms tick_cases [OF flash] show ?thesis
      by (simp add: write_defs pin_defs w_def [symmetric])
  next
    case last
    then have "\<not> w < 2000" "\<not> w < 2500" "\<not> w < 4500" "\<not> w < 5500"
      by (simp_all add: word_less_nat_alt)
    with last assms show ?thesis
      by (simp add: write_defs pin_defs w_def [symmetric])
  qed
qed

lemma all_modes_on_flags:
  "systemOffMode all_modes_on" "emergencyMode all_modes_on" "blinkingMode all_modes_on"
  by (simp_all add: all_modes_on_def startup_def)

lemma running_since_fields:
  "\<not> systemOffMode (running_since t)" "\<not> emergencyMode (running_since t)"
  "\<not> blinkingMode (running_since t)" "cycleStart (running_since t) = t"
  "lastEmergencyInterruptTime (running_since t) = 0"
  "lastResetInterruptTime (running_since t) = 0"
  "lastBlinkingDebounceTime (running_since t) = 0"
  "lastBlinkingButtonState (running_since t) = HIGH"
  by (simp_all add: running_since_def setup_board_def startup_def digitalWrite_def Let_def)

text \<open>
  C1. The resolver follows the priority chain shutdown, emergency, blink, normal, and each
  state and time falls into exactly one branch, which fixes all four outputs. With the
  shutdown flag set the four outputs are off, whatever the other two flags are, also when
  all three are set. With shutdown clear and emergency set, red is on and the other three
  are off. With only blink of the first three left, the four outputs are all on when the
  clock reading divided by 500 is even and all off when it is odd. With the three flags
  clear the outputs are the row of the normal cycle at the phase, in which at most one
  output is on.
\<close>

theorem resolver_priority:
  "(systemOffMode s \<longrightarrow> outputs (updateTrafficLights ms s) = (LOW, LOW, LOW, LOW)) \<and>
   (systemOffMode s \<and> emergencyMode s \<and> blinkingMode s \<longrightarrow>
      outputs (updateTrafficLights ms s) = (LOW, LOW, LOW, LOW)) \<and>
   (\<not> systemOffMode s \<and> emergencyMode s \<longrightarrow>
      outputs (updateTrafficLights ms s) = (HIGH, LOW, LOW, LOW)) \<and>
   (\<not> systemOffMode s \<and> \<not> emergencyMode s \<and> blinkingMode s \<longrightarrow>
      outputs (updateTrafficLights ms s) =
        (if even (unat ms div 500) then (HIGH, HIGH, HIGH, HIGH) else (LOW, LOW, LOW, LOW))) \<and>
   (\<not> systemOffMode s \<and> \<not> emergencyMode s \<and> \<not> blinkingMode s \<longrightarrow>
      outputs (updateTrafficLights ms s) =
        spec_cycle_table (unat (elapsed_of ms (cycleStart s))) \<and>
      outputs (updateTrafficLights ms s) \<in>
        {(HIGH, LOW, LOW, LOW), (LOW, HIGH, LOW, LOW), (LOW, LOW, HIGH, LOW),
         (LOW, LOW, LOW, HIGH), (LOW, LOW, LOW, LOW)})"
proof -
  have "outputs (updateTrafficLights ms s) = (LOW, LOW, LOW, LOW)" if "systemOffMode s"
    using that by (rule shutdown_outputs)
  moreover have "outputs (updateTrafficLights ms s) = (HIGH, LOW, LOW, LOW)"
    if "\<not> systemOffMode s" "emergencyMode s"
    using that by (rule emergency_outputs)
  moreover have
    "outputs (updateTrafficLights ms s) =
        (if even (unat ms div 500) then (HIGH, HIGH, HIGH, HIGH) else (LOW, LOW, LOW, LOW))"
    if "\<not> systemOffMode s" "\<not> emergencyMode s" "blinkingMode s"
    using that by (rule blink_outputs)
  moreover have
    "outputs (updateTrafficLights ms s) = spec_cycle_table (unat (elapsed_of ms (cycleStart s)))"
    if "\<not> systemOffMode s" "\<not> emergencyMode s" "\<not> blinkingMode s"
    using elapsed_of_less [of ms "cycleStart s"]
    by (simp add: normal_outputs [OF that] spec_cycle_table_def in_window_def Let_def)
  moreover have
    "outputs (updateTrafficLights ms s) \<in>
        {(HIGH, LOW, LOW, LOW), (LOW, HIGH, LOW, LOW), (LOW, LOW, HIGH, LOW),
         (LOW, LOW, LOW, HIGH), (LOW, LOW, LOW, LOW)}"
    if "\<not> systemOffMode s" "\<not> emergencyMode s" "\<not> blinkingMode s"
    by (simp add: normal_outputs [OF that] Let_def)
  ultimately show ?thesis by blast
qed

theorem resolver_priority_witness:
  "outputs (updateTrafficLights 700 all_modes_on) = (LOW, LOW, LOW, LOW) \<and>
   outputs (updateTrafficLights 700 (all_modes_on\<lparr>systemOffMode := False\<rparr>)) =
     (HIGH, LOW, LOW, LOW) \<and>
   outputs (updateTrafficLights 0
       (all_modes_on\<lparr>systemOffMode := False, emergencyMode := False\<rparr>)) =
     (HIGH, HIGH, HIGH, HIGH) \<and>
   outputs (updateTrafficLights 700
       (all_modes_on\<lparr>systemOffMode := False, emergencyMode := False\<rparr>)) =
     (LOW, LOW, LOW, LOW) \<and>
   outputs (updateTrafficLights 700 (running_since 0)) = (HIGH, LOW, LOW, LOW) \<and>
   outputs (updateTrafficLights 2700 (running_since 0)) = (LOW, LOW, HIGH, LOW)"
  using resolver_priority [of all_modes_on 700]
    resolver_priority [of "all_modes_on\<lparr>systemOffMode := False\<rparr>" 700]
    resolver_priority [of "all_modes_on\<lparr>systemOffMode := False, emergencyMode := False\<rparr>" 0]
    resolver_priority [of "all_modes_on\<lparr>systemOffMode := False, emergencyMode := False\<rparr>" 700]
    resolver_priority [of "running_since 0" 700]
    resolver_priority [of "running_since 0" 2700]
  by (simp add: all_modes_on_flags running_since_fields elapsed_of_def cycleDuration_def
      spec_cycle_table_def in_window_def)

text \<open>
  C8. The phase of the normal cycle, the 32-bit difference of the clock reading and the
  cycle reference reduced modulo 6000, lies in the range from 0 up to but excluding 6000
  for every pair of readings, also when the subtraction wraps around.
\<close>

theorem elapsed_in_cycle:
  "unat (elapsed_of now start) < 6000 \<and>
   elapsed_of now start = (now - start) mod 6000 \<and>
   unat (elapsed_of now start) = ((unat now + 2 ^ 32 - unat start) mod 2 ^ 32) mod 6000"
proof -
  have n: "unat now < 2 ^ 32" and st: "unat start < 2 ^ 32"
    using unsigned_less [of now, where ?'a = nat] unsigned_less [of start, where ?'a = nat] by simp_all
  have "unat (now - start) = (unat now + 2 ^ 32 - unat start) mod 2 ^ 32"
  proof (cases "unat start \<le> unat now")
    case True
    then have "unat now + 2 ^ 32 - unat start = (unat now - unat start) + 1 * 2 ^ 32"
      by simp
    then have "(unat now + 2 ^ 32 - unat start) mod 2 ^ 32 = unat now - unat start"
      using n by (simp only: mod_mult_self1) simp
    with True show ?thesis by (simp add: unat_sub_if')
  next
    case False
    then have "unat now + 2 ^ 32 - unat start < 2 ^ 32" using st by simp
    with False show ?thesis by (simp add: unat_sub_if')
  qed
  then show ?thesis
    by (simp add: elapsed_of_less) (simp add: elapsed_of_def cycleDuration_def unat_mod)
qed

text \<open>
  C9. One run of the resolver leaves the three mode flags, the three debounce timestamps,
  the last observed level of the polled button and the cycle reference as they were, and
  writes no pin other than the four outputs.
\<close>

theorem resolver_frame:
  "emergencyMode (updateTrafficLights ms s) = emergencyMode s \<and>
   systemOffMode (updateTrafficLights ms s) = systemOffMode s \<and>
   blinkingMode (updateTrafficLights ms s) = blinkingMode s \<and>
   lastEmergencyInterruptTime (updateTrafficLights ms s) = lastEmergencyInterruptTime s \<and>
   lastResetInterruptTime (updateTrafficLights ms s) = lastResetInterruptTime s \<and>
   lastBlinkingDebounceTime (updateTrafficLights ms s) = lastBlinkingDebounceTime s \<and>
   lastBlinkingButtonState (updateTrafficLights ms s) = lastBlinkingButtonState s \<and>
   cycleStart (updateTrafficLights ms s) = cycleStart s \<and>
   (p \<notin> {LED_RED, LED_YELLOW, LED_GREEN, LED_BLINK} \<longrightarrow>
      pins (updateTrafficLights ms s) p = pins s p)"
  by (simp add: updateTrafficLights_def digitalWrite_def Let_def)

theorem resolver_frame_witness:
  "(13::nat) \<notin> {LED_RED, LED_YELLOW, LED_GREEN, LED_BLINK} \<and>
   pins (updateTrafficLights 700 (all_modes_on\<lparr>pins := (\<lambda>p. HIGH)\<rparr>)) 13 = HIGH \<and>
   emergencyMode (updateTrafficLights 700 (all_modes_on\<lparr>pins := (\<lambda>p. HIGH)\<rparr>)) \<and>
   outputs (updateTrafficLights 700 (all_modes_on\<lparr>pins := (\<lambda>p. HIGH)\<rparr>)) =
     (LOW, LOW, LOW, LOW)"
  using resolver_frame [of 700 "all_modes_on\<lparr>pins := (\<lambda>p. HIGH)\<rparr>" 13]
  by (simp add: pin_defs all_modes_on_flags write_defs)



text \<open>
  C3. With the three mode flags clear and the phase in the window from 4500 to 5500,
  red, yellow and green are off, and the blink output is on exactly when the phase lies
  in one of the ranges from 4500 to 4600, from 4800 to 4900 or from 5100 to 5200 (upper
  bounds excluded).
\<close>

theorem triple_flash:
  assumes "\<not> systemOffMode s" "\<not> emergencyMode s" "\<not> blinkingMode s"
    and "4500 \<le> unat (elapsed_of ms (cycleStart s))"
    and "unat (elapsed_of ms (cycleStart s)) < 5500"
  shows "outputs (updateTrafficLights ms s) =
     (LOW, LOW, LOW,
      if unat (elapsed_of ms (cycleStart s)) \<in> {4500..<4600} \<union> {4800..<4900} \<union> {5100..<5200}
      then HIGH else LOW)"
  using assms(4,5) by (simp add: normal_outputs [OF assms(1-3)] Let_def)

theorem triple_flash_witness:
  "outputs (updateTrafficLights 4599 (running_since 0)) = (LOW, LOW, LOW, HIGH) \<and>
   outputs (updateTrafficLights 4600 (running_since 0)) = (LOW, LOW, LOW, LOW) \<and>
   outputs (updateTrafficLights 4800 (running_since 0)) = (LOW, LOW, LOW, HIGH) \<and>
   outputs (updateTrafficLights 4900 (running_since 0)) = (LOW, LOW, LOW, LOW) \<and>
   outputs (updateTrafficLights 5199 (running_since 0)) = (LOW, LOW, LOW, HIGH) \<and>
   outputs (updateTrafficLights 5200 (running_since 0)) = (LOW, LOW, LOW, LOW)"
proof -
  have e: "elapsed_of 4599 (cycleStart (running_since 0)) = 4599"
    "elapsed_of 4600 (cycleStart (running_since 0)) = 4600"
    "elapsed_of 4800 (cycleStart (running_since 0)) = 4800"
    "elapsed_of 4900 (cycleStart (running_since 0)) = 4900"
    "elapsed_of 5199 (cycleStart (running_since 0)) = 5199"
    "elapsed_of 5200 (cycleStart (running_since 0)) = 5200"
    by (simp_all add: running_since_fields elapsed_of_def cycleDuration_def)
  show ?thesis
    using triple_flash [OF running_since_fields(1-3), of 4599 0]
      triple_flash [OF running_since_fields(1-3), of 4600 0]
      triple_flash [OF running_since_fields(1-3), of 4800 0]
      triple_flash [OF running_since_fields(1-3), of 4900 0]
      triple_flash [OF running_since_fields(1-3), of 5199 0]
      triple_flash [OF running_since_fields(1-3), of 5200 0]
    by (simp add: e)
qed

text \<open>
  C4, as stated, fails at the wrap of the 32-bit millisecond clock: 500 ms after the
  reading 4294967295 the clock reads 499, and both readings have an even quotient by 500,
  so the four outputs are on at both and the shared level has not flipped.
\<close>

theorem blink_flip_counterexample:
  "(4294967295 :: ulong) + 500 = 499 \<and>
   outputs (updateTrafficLights 4294967295 ((running_since 0)\<lparr>blinkingMode := True\<rparr>)) =
     (HIGH, HIGH, HIGH, HIGH) \<and>
   outputs (updateTrafficLights (4294967295 + 500) ((running_since 0)\<lparr>blinkingMode := True\<rparr>)) =
     (HIGH, HIGH, HIGH, HIGH)"
  by (simp add: write_defs pin_defs running_since_fields HIGH_def LOW_def)

text \<open>
  C4, amended. With shutdown and emergency clear and the blink flag set, the four outputs
  carry the same level, which depends on the clock reading only through the parity of the
  reading divided by 500: on when the quotient is even, off when it is odd. A reading
  500 ms later that has not passed the wrap of the 32-bit clock gives the opposite level
  on all four.
\<close>

theorem blink_mode_parity:
  assumes "\<not> systemOffMode s" "\<not> emergencyMode s" "blinkingMode s"
  shows "outputs (updateTrafficLights ms s) =
           (if even (unat ms div 500) then (HIGH, HIGH, HIGH, HIGH) else (LOW, LOW, LOW, LOW)) \<and>
         (unat ms + 500 < 2 ^ 32 \<longrightarrow>
           outputs (updateTrafficLights (ms + 500) s) =
           (if even (unat ms div 500) then (LOW, LOW, LOW, LOW) else (HIGH, HIGH, HIGH, HIGH)))"
proof
  show "outputs (updateTrafficLights ms s) =
           (if even (unat ms div 500) then (HIGH, HIGH, HIGH, HIGH) else (LOW, LOW, LOW, LOW))"
    by (rule blink_outputs [OF assms])
  show "unat ms + 500 < 2 ^ 32 \<longrightarrow>
           outputs (updateTrafficLights (ms + 500) s) =
           (if even (unat ms div 500) then (LOW, LOW, LOW, LOW) else (HIGH, HIGH, HIGH, HIGH))"
  proof
    assume "unat ms + 500 < 2 ^ 32"
    then have "unat (ms + 500) = unat ms + 500"
      by (simp add: unat_word_ariths)
    then have "unat (ms + 500) div 500 = Suc (unat ms div 500)" by simp
    then show "outputs (updateTrafficLights (ms + 500) s) =
           (if even (unat ms div 500) then (LOW, LOW, LOW, LOW) else (HIGH, HIGH, HIGH, HIGH))"
      by (simp add: blink_outputs [OF assms])
  qed
qed

theorem blink_mode_parity_witness:
  "outputs (updateTrafficLights 1499 ((running_since 0)\<lparr>blinkingMode := True\<rparr>)) =
     (HIGH, HIGH, HIGH, HIGH) \<and>
   outputs (updateTrafficLights (1499 + 500) ((running_since 0)\<lparr>blinkingMode := True\<rparr>)) =
     (LOW, LOW, LOW, LOW) \<and>
   outputs (updateTrafficLights 1500 ((running_since 0)\<lparr>blinkingMode := True\<rparr>)) =
     (LOW, LOW, LOW, LOW)"
  using blink_mode_parity [of "(running_since 0)\<lparr>blinkingMode := True\<rparr>" 1499]
    blink_mode_parity [of "(running_since 0)\<lparr>blinkingMode := True\<rparr>" 1500]
  by (simp add: running_since_fields)

section \<open>Properties of the triggers\<close>

lemma poll_reject:
  assumes "\<not> t - lastBlinkingDebounceTime s > blinkingDebounceDelay"
  shows "blinkingMode (pollBlinkingButton l t s) = blinkingMode s"
    and "lastBlinkingDebounceTime (pollBlinkingButton l t s) = lastBlinkingDebounceTime s"
  using assms by (simp_all add: pollBlinkingButton_def Let_def)

text \<open>Two readings of the millisecond clock at most 50 ms apart never pass the poll test.\<close>

lemma offset_diff:
  fixes t0 :: ulong
  assumes "d \<le> d'" "d' \<le> 50"
  shows "\<not> (t0 + of_nat d') - (t0 + of_nat d) > blinkingDebounceDelay"
proof -
  obtain k where k: "d' = d + k" using assms(1) by (auto simp: le_iff_add)
  then have "k \<le> 50" using assms(2) by simp
  then have "unat (of_nat k :: ulong) = k" by (simp add: unat_of_nat)
  moreover have "(t0 + of_nat d') - (t0 + of_nat d) = (of_nat k :: ulong)"
    by (simp add: k)
  ultimately show ?thesis using \<open>k \<le> 50\<close>
    by (simp only: word_less_nat_alt blinkingDebounceDelay_def not_less) simp
qed

text \<open>After an accepted toggle, the polls of the rest of the 50 ms span change nothing.\<close>

lemma poll_quiet:
  assumes "lastBlinkingDebounceTime s = t0 + of_nat d"
    and "\<forall>x \<in> set ds. d \<le> x \<and> x \<le> 50" "length ls = length ds"
  shows "poll_toggles (zip ls (map (\<lambda>x. t0 + of_nat x) ds)) s = 0"
  using assms
proof (induction ds arbitrary: s ls)
  case Nil
  then show ?case by simp
next
  case (Cons x xs)
  then obtain l ls' where ls: "ls = l # ls'" by (cases ls) auto
  have rej: "\<not> (t0 + of_nat x) - lastBlinkingDebounceTime s > blinkingDebounceDelay"
    unfolding Cons.prems(1) by (rule offset_diff) (use Cons.prems in auto)
  let ?s' = "pollBlinkingButton l (t0 + of_nat x) s"
  have "lastBlinkingDebounceTime ?s' = t0 + of_nat d"
    using poll_reject(2) [OF rej] Cons.prems(1) by simp
  then have "poll_toggles (zip ls' (map (\<lambda>x. t0 + of_nat x) xs)) ?s' = 0"
    using Cons.prems ls by (intro Cons.IH) auto
  then show ?case using poll_reject(1) [OF rej] ls by simp
qed

lemma poll_at_most_once:
  assumes "sorted ds" "\<forall>x \<in> set ds. x \<le> 50" "length ls = length ds"
  shows "poll_toggles (zip ls (map (\<lambda>x. t0 + of_nat x) ds)) s \<le> 1"
  using assms
proof (induction ds arbitrary: s ls)
  case Nil
  then show ?case by simp
next
  case (Cons x xs)
  then obtain l ls' where ls: "ls = l # ls'" by (cases ls) auto
  let ?s' = "pollBlinkingButton l (t0 + of_nat x) s"
  show ?case
  proof (cases "blinkingMode ?s' \<noteq> blinkingMode s")
    case True
    then have "lastBlinkingDebounceTime ?s' = t0 + of_nat x"
      by (auto simp: pollBlinkingButton_def Let_def split: if_splits)
    moreover have "\<forall>y \<in> set xs. x \<le> y \<and> y \<le> 50" using Cons.prems by auto
    ultimately have "poll_toggles (zip ls' (map (\<lambda>x. t0 + of_nat x) xs)) ?s' = 0"
      using Cons.prems ls by (intro poll_quiet) auto
    then show ?thesis using ls by simp
  next
    case False
    have "poll_toggles (zip ls' (map (\<lambda>x. t0 + of_nat x) xs)) ?s' \<le> 1"
      using Cons.prems ls by (intro Cons.IH) auto
    then show ?thesis using False ls by simp
  qed
qed

text \<open>
  C5, as stated, fails: after startup the last-accepted timestamp is 0, so an edge event
  at 100 ms is discarded and one at 350 ms is accepted. The two events are 250 ms apart
  and produce one toggle, not two.
\<close>

theorem edge_two_events_counterexample:
  "emergency_toggles [100000, 350000] startup = 1 \<and>
   (350000 :: ulong) - 100000 \<ge> debounceDelayMicro \<and>
   emergencyISR 100000 startup = startup"
  by (simp add: emergencyISR_def startup_def debounceDelayMicro_def)

text \<open>
  C5, amended. Each edge handler toggles its flag and stores the clock reading exactly
  when the 32-bit difference of the reading and the last-accepted timestamp is at least
  200000 microseconds, and otherwise returns the state as it was. When the first of two
  events on a trigger is accepted, the pair produces one toggle if the 32-bit difference
  of the two readings is below 200000 microseconds and two toggles if it is 200000
  microseconds or more.
\<close>

theorem edge_debounce:
  "emergencyISR t s =
     (if t - lastEmergencyInterruptTime s \<ge> debounceDelayMicro
      then s\<lparr>emergencyMode := \<not> emergencyMode s, lastEmergencyInterruptTime := t\<rparr> else s) \<and>
   resetISR t s =
     (if t - lastResetInterruptTime s \<ge> debounceDelayMicro
      then s\<lparr>systemOffMode := \<not> systemOffMode s, lastResetInterruptTime := t\<rparr> else s) \<and>
   (t1 - lastEmergencyInterruptTime s \<ge> debounceDelayMicro \<longrightarrow>
      emergency_toggles [t1, t2] s = (if t2 - t1 < debounceDelayMicro then 1 else 2)) \<and>
   (t1 - lastResetInterruptTime s \<ge> debounceDelayMicro \<longrightarrow>
      reset_toggles [t1, t2] s = (if t2 - t1 < debounceDelayMicro then 1 else 2))"
  by (auto simp: emergencyISR_def resetISR_def)

theorem edge_debounce_witness:
  "emergency_toggles [200000, 399999] startup = 1 \<and>
   emergency_toggles [200000, 400000] startup = 2 \<and>
   reset_toggles [200000, 399999] startup = 1 \<and>
   reset_toggles [200000, 400000] startup = 2"
  using edge_debounce [of 0 startup 200000 399999] edge_debounce [of 0 startup 200000 400000]
  by (simp add: startup_def debounceDelayMicro_def)

text \<open>
  C6, as stated, fails at the boundary of the edge triggers: an event whose reading is
  exactly 200000 microseconds after the last-accepted timestamp is accepted although the
  elapsed time does not strictly exceed the window.
\<close>

theorem strict_window_counterexample:
  "emergencyMode (emergencyISR 200000 startup) \<noteq> emergencyMode startup \<and>
   \<not> (200000 - lastEmergencyInterruptTime startup > debounceDelayMicro)"
  by (simp add: emergencyISR_def startup_def debounceDelayMicro_def)

text \<open>
  C6, amended. An edge event toggles its flag if and only if the elapsed time since the
  trigger's last accepted toggle is at least 200000 microseconds (equal counts). A poll
  toggles the blink flag if and only if the stored level is high, the level read is low
  and the elapsed time since the last accepted toggle strictly exceeds 50 ms.
\<close>

theorem toggle_accepted_iff:
  "(emergencyMode (emergencyISR t s) \<noteq> emergencyMode s) =
     (t - lastEmergencyInterruptTime s \<ge> debounceDelayMicro) \<and>
   (systemOffMode (resetISR t s) \<noteq> systemOffMode s) =
     (t - lastResetInterruptTime s \<ge> debounceDelayMicro) \<and>
   (blinkingMode (pollBlinkingButton l t' s) \<noteq> blinkingMode s) =
     (lastBlinkingButtonState s = HIGH \<and> l = LOW \<and>
      t' - lastBlinkingDebounceTime s > blinkingDebounceDelay)"
  by (simp add: emergencyISR_def resetISR_def pollBlinkingButton_def Let_def)

text \<open>
  C7. Polls whose clock readings lie in a span of 50 ms, taken in the order of their
  readings, toggle the blink flag at most once, whatever levels they read and whatever
  the state before the first of them; the bounce high, low, high, low is one such
  sequence. Every poll stores the level it read, whether or not it toggled the flag.
\<close>

theorem poll_bounce_once:
  assumes "sorted ds" "\<forall>d \<in> set ds. d \<le> 50" "length ls = length ds"
  shows "poll_toggles (zip ls (map (\<lambda>d. t0 + of_nat d) ds)) s \<le> 1 \<and>
         lastBlinkingButtonState (pollBlinkingButton l t s) = l"
  using poll_at_most_once [OF assms]
  by (simp add: pollBlinkingButton_def Let_def)

theorem poll_bounce_once_witness:
  "poll_toggles [(HIGH, 1000), (LOW, 1010), (HIGH, 1025), (LOW, 1050)] startup \<le> 1 \<and>
   lastBlinkingButtonState (pollBlinkingButton LOW 1010 startup) = LOW"
  using poll_bounce_once [of "[0, 10, 25, 50]" "[HIGH, LOW, HIGH, LOW]" 1000 startup LOW 1010]
  by simp

text \<open>
  C10. The three last-accepted timestamps are 0 after startup. While a trigger's
  timestamp is still 0, an edge event whose microsecond reading is below 200000 returns
  the state unchanged, and a poll that sees the button low at a millisecond reading of 50
  or less leaves the blink flag and its timestamp unchanged.
\<close>

theorem first_event_debounced:
  "lastEmergencyInterruptTime (setup_board ms startup) = 0 \<and>
   lastResetInterruptTime (setup_board ms startup) = 0 \<and>
   lastBlinkingDebounceTime (setup_board ms startup) = 0 \<and>
   lastBlinkingButtonState (setup_board ms startup) = HIGH \<and>
   (lastEmergencyInterruptTime s = 0 \<and> unat us < 200000 \<longrightarrow> emergencyISR us s = s) \<and>
   (lastResetInterruptTime s = 0 \<and> unat us < 200000 \<longrightarrow> resetISR us s = s) \<and>
   (lastBlinkingDebounceTime s = 0 \<and> unat t \<le> 50 \<longrightarrow>
      blinkingMode (pollBlinkingButton LOW t s) = blinkingMode s \<and>
      lastBlinkingDebounceTime (pollBlinkingButton LOW t s) = 0)"
  by (simp add: setup_board_def startup_def digitalWrite_def Let_def emergencyISR_def
      resetISR_def pollBlinkingButton_def debounceDelayMicro_def blinkingDebounceDelay_def
      word_le_nat_alt word_less_nat_alt)

theorem first_event_debounced_witness:
  "emergencyISR 199999 (running_since 0) = running_since 0 \<and>
   resetISR 199999 (running_since 0) = running_since 0 \<and>
   \<not> blinkingMode (pollBlinkingButton LOW 50 (running_since 0)) \<and>
   lastBlinkingDebounceTime (pollBlinkingButton LOW 50 (running_since 0)) = 0"
  using first_event_debounced [of 0 "running_since 0" 199999 50]
  by (simp add: running_since_fields)

end
